theory Spec2Isabelle
  imports Main "HOL-Library.Char_ord" "HOL-Library.List_Lexorder" "HOL-Library.Product_Lexorder"
begin

section \<open>Data model\<close>

text \<open>
  The TypeScript interfaces of \<^verbatim>\<open>components/Chat.tsx\<close> and \<^verbatim>\<open>pages/index.tsx\<close>.
  A JavaScript \<^verbatim>\<open>string\<close> is a \<open>string\<close> (a list of code units), and the comparison
  \<^verbatim>\<open><\<close> of two strings is the lexicographic order of their code units, which is the
  order of \<open>HOL-Library.List_Lexorder\<close> over \<open>HOL-Library.Char_ord\<close> (a proper prefix is
  smaller). A nullable field \<^verbatim>\<open>T | null\<close> is a \<open>T option\<close>.
  Both interfaces have a field \<^verbatim>\<open>id\<close>, which is also a constant of HOL, so the fields
  of \<^verbatim>\<open>Profile\<close> carry the prefix \<open>p_\<close> and those of \<^verbatim>\<open>Message\<close> the prefix \<open>m_\<close>.
\<close>

record Profile =
  p_id :: string
  p_username :: "string option"
  p_avatar_url :: "string option"
  p_short_id :: string

text \<open>
  A row of the table \<^verbatim>\<open>messages\<close>, as the change feed delivers it in \<^verbatim>\<open>payload.new\<close>,
  and the \<^verbatim>\<open>Message\<close> of the view, which adds the joined profile.
\<close>

record MessageRow =
  m_id :: string
  m_created_at :: string
  m_user_id :: string
  m_room_id :: string
  m_content :: "string option"
  m_image_url :: "string option"

record Message = MessageRow +
  m_profiles :: "Profile option"

text \<open>An error object of the backend; the code only ever reads its \<^verbatim>\<open>code\<close>.\<close>

record PgError =
  code :: string

section \<open>Room identity\<close>

text \<open>
  \<^verbatim>\<open>getRoomId = (user1Id, user2Id) =>
      user1Id < user2Id ? `${user1Id}_${user2Id}` : `${user2Id}_${user1Id}`\<close>
\<close>

definition getRoomId :: "string \<Rightarrow> string \<Rightarrow> string" where
  "getRoomId user1Id user2Id =
     (if user1Id < user2Id then user1Id @ ''_'' @ user2Id else user2Id @ ''_'' @ user1Id)"

section \<open>The conversation view\<close>

text \<open>
  The object \<^verbatim>\<open>{ ...payload.new, profiles: profileData } as Message\<close>.
\<close>

definition withProfile :: "MessageRow \<Rightarrow> Profile option \<Rightarrow> Message" where
  "withProfile row profileData =
     \<lparr>m_id = m_id row, m_created_at = m_created_at row, m_user_id = m_user_id row,
      m_room_id = m_room_id row, m_content = m_content row, m_image_url = m_image_url row,
      m_profiles = profileData\<rparr>"

text \<open>
  The state updater passed to \<^verbatim>\<open>setMessages\<close> in the realtime listener:
  \<^verbatim>\<open>const newMessages = [...prevMessages, msg];
  if (newMessages.length > 200) return newMessages.slice(newMessages.length - 200);
  return newMessages;\<close>
\<close>

definition appendMessage :: "Message \<Rightarrow> Message list \<Rightarrow> Message list" where
  "appendMessage msg prevMessages =
     (let newMessages = prevMessages @ [msg]
      in if length newMessages > 200
         then drop (length newMessages - 200) newMessages
         else newMessages)"

text \<open>
  A change-feed notification: its \<^verbatim>\<open>eventType\<close> and the new row. The listener looks
  the author's profile up and, when the lookup has answered with \<^verbatim>\<open>profileData\<close>
  (\<open>None\<close> when it failed), updates the view; for an event that is not an
  \<^verbatim>\<open>INSERT\<close> it does nothing.
\<close>

record Payload =
  eventType :: string
  new :: MessageRow

definition messageListener :: "Payload \<Rightarrow> Profile option \<Rightarrow> Message list \<Rightarrow> Message list" where
  "messageListener payload profileData prevMessages =
     (if eventType payload = ''INSERT''
      then appendMessage (withProfile (new payload) profileData) prevMessages
      else prevMessages)"

text \<open>
  The updater of the listener applied to consecutive live events, in the order in which
  their profile lookups answer, each call on the view the one before has left: the view
  as long as no answer of a bulk read lands in between. The bulk reads that the effect
  starts are part of \<open>run\<close> below.
\<close>

definition mergeAll :: "Message list \<Rightarrow> (Payload \<times> Profile option) list \<Rightarrow> Message list" where
  "mergeAll view events = foldl (\<lambda>v (payload, profileData). messageListener payload profileData v) view events"

text \<open>
  \<^verbatim>\<open>fetchMessages\<close>: the bulk read asks for the rows of the room ordered by
  \<^verbatim>\<open>created_at\<close> ascending, at most 200 of them. Its answer is \<^verbatim>\<open>{ data, error }\<close>;
  on an error the view is kept, otherwise it becomes \<^verbatim>\<open>data || []\<close>.
\<close>

record FetchResponse =
  data :: "Message list option"
  error :: "PgError option"

definition fetchMessages :: "FetchResponse \<Rightarrow> Message list \<Rightarrow> Message list" where
  "fetchMessages response prevMessages =
     (case error response of
        Some e \<Rightarrow> prevMessages
      | None \<Rightarrow> (case data response of None \<Rightarrow> [] | Some d \<Rightarrow> d))"

section \<open>The effect and its bulk reads\<close>

text \<open>
  The listener and the bulk read live in one effect,
  \<^verbatim>\<open>useEffect(() => { fetchMessages(); ...subscribe...; }, [currentRoomId, messages.length])\<close>.
  It runs when the component is mounted and again after every update of the state that
  changes \<^verbatim>\<open>messages.length\<close>, and each run starts a bulk read, whose answer
  replaces the view when it arrives. The state of an open conversation is therefore the
  view together with the number of bulk reads that are started and not yet answered.
  A step is one update of the state: a live event whose profile lookup has answered, or
  the answer of a bulk read. An answer can only arrive for a read that was started, so
  \<open>applyStep\<close> is \<open>None\<close> for an answer when no read is pending: such a sequence of
  steps is not one of the component.
\<close>

record ChatState =
  messages :: "Message list"
  pendingReads :: nat

datatype step = LiveEvent Payload "Profile option" | ReadAnswer FetchResponse

definition effectAfter :: "nat \<Rightarrow> ChatState \<Rightarrow> ChatState" where
  "effectAfter oldLength st =
     (if length (messages st) = oldLength then st
      else st\<lparr>pendingReads := Suc (pendingReads st)\<rparr>)"

fun applyStep :: "ChatState \<Rightarrow> step \<Rightarrow> ChatState option" where
  "applyStep st (LiveEvent payload profileData) =
     Some (effectAfter (length (messages st))
            (st\<lparr>messages := messageListener payload profileData (messages st)\<rparr>))"
| "applyStep st (ReadAnswer response) =
     (if pendingReads st = 0 then None
      else Some (effectAfter (length (messages st))
                  (st\<lparr>messages := fetchMessages response (messages st),
                      pendingReads := pendingReads st - 1\<rparr>)))"

fun run :: "ChatState \<Rightarrow> step list \<Rightarrow> ChatState option" where
  "run st [] = Some st"
| "run st (s # ss) = (case applyStep st s of None \<Rightarrow> None | Some st' \<Rightarrow> run st' ss)"

text \<open>The conversation when it is opened: an empty view, and the first bulk read started.\<close>

definition mounted :: ChatState where
  "mounted = \<lparr>messages = [], pendingReads = 1\<rparr>"

section \<open>Profile provisioning\<close>

text \<open>
  What a handler does besides computing: the requests it sends to the backend, the state
  setters it calls and what it shows. A handler is modelled as a function from the
  backend's answers to the list of its effects, in the order of the code.
  The texts of the alerts are not ASCII, so each alert is a constructor:
  \<open>AlreadyFriend\<close> is the notice that the user is already a friend,
  \<open>AddFriendFailed\<close> the notice that adding the friend failed, and
  \<open>FriendAdded name\<close> the notice that \<open>name\<close> was added.
\<close>

datatype alert = AlreadyFriend | AddFriendFailed | FriendAdded string

record FriendEntry =
  f_user_id :: string
  f_friend_id :: string
  f_status :: string

text \<open>The object given to \<^verbatim>\<open>supabase.from('messages').insert\<close>.\<close>

record MessageInsert =
  i_user_id :: string
  i_room_id :: string
  i_content :: "string option"
  i_image_url :: "string option"

datatype effect =
    InsertProfile Profile
  | InsertFriend FriendEntry
  | InsertMessage MessageInsert
  | ConsoleError string PgError
  | Alert alert
  | SetMyProfile "Profile option"
  | SetFriendIdToSearch string
  | SetSearchResults "Profile list"
  | SetNewMessage string
  | FetchFriends

text \<open>The answer \<^verbatim>\<open>{ data, error }\<close> of a query for one profile.\<close>

record ProfileResponse =
  p_data :: "Profile option"
  p_error :: "PgError option"

text \<open>
  \<^verbatim>\<open>const generatedShortId = userEmail ? sha256(userEmail).substring(0, 7) : 'guest_id';\<close>
  The function \<^verbatim>\<open>sha256\<close> comes from the package \<^verbatim>\<open>js-sha256\<close> and is a parameter
  here; it returns the digest as 64 hexadecimal characters. \<^verbatim>\<open>userEmail\<close> has the
  type \<^verbatim>\<open>string | undefined\<close>, and both \<^verbatim>\<open>undefined\<close> and the empty string are falsy.
\<close>

definition generatedShortId :: "(string \<Rightarrow> string) \<Rightarrow> string option \<Rightarrow> string" where
  "generatedShortId sha256 userEmail =
     (case userEmail of
        None \<Rightarrow> ''guest_id''
      | Some email \<Rightarrow> if email = [] then ''guest_id'' else take 7 (sha256 email))"

text \<open>
  \<^verbatim>\<open>upsertProfile(userId, userEmail)\<close>. \<open>selectResponse\<close> is the answer to the read
  of the profile with this id, \<open>insertResponse\<close> the answer to the insert (read only
  when the insert is sent), and \<open>rnd\<close> the text
  \<^verbatim>\<open>Math.random().toString(36).substring(7)\<close>.
\<close>

definition upsertProfile ::
  "(string \<Rightarrow> string) \<Rightarrow> string \<Rightarrow> ProfileResponse \<Rightarrow> ProfileResponse \<Rightarrow>
   string \<Rightarrow> string option \<Rightarrow> effect list" where
  "upsertProfile sha256 rnd selectResponse insertResponse userId userEmail =
     (let createOrKeep =
        (case p_data selectResponse of
           None \<Rightarrow>
             InsertProfile \<lparr>p_id = userId, p_username = Some (''User-'' @ rnd),
                            p_avatar_url = None,
                            p_short_id = generatedShortId sha256 userEmail\<rparr>
             # (case p_error insertResponse of
                  Some insertError \<Rightarrow> [ConsoleError ''Error inserting new profile:'' insertError]
                | None \<Rightarrow> [SetMyProfile (p_data insertResponse)])
         | Some existingProfile \<Rightarrow> [SetMyProfile (Some existingProfile)])
      in case p_error selectResponse of
           None \<Rightarrow> createOrKeep
         | Some fetchError \<Rightarrow>
             if code fetchError \<noteq> ''PGRST116''
             then [ConsoleError ''Error fetching profile:'' fetchError]
             else createOrKeep)"

section \<open>Friendship\<close>

text \<open>
  \<^verbatim>\<open>handleAddFriend(friendProfileToAdd)\<close>. \<open>myProfile\<close>, \<open>session\<close> (the id of the
  signed-in user, the only part of the session the handler could read) and
  \<open>friendProfiles\<close> are the component's state; \<open>insertError1\<close> and \<open>insertError2\<close>
  are the errors of the two inserts, \<open>None\<close> for an insert that succeeded. Both inserts
  are sent before either error is looked at.
\<close>

definition displayName :: "Profile \<Rightarrow> string" where
  "displayName p =
     (case p_username p of
        None \<Rightarrow> p_short_id p
      | Some name \<Rightarrow> if name = [] then p_short_id p else name)"

definition handleAddFriend ::
  "Profile option \<Rightarrow> string option \<Rightarrow> Profile list \<Rightarrow> PgError option \<Rightarrow> PgError option \<Rightarrow>
   Profile \<Rightarrow> effect list" where
  "handleAddFriend myProfile session friendProfiles insertError1 insertError2 friendProfileToAdd =
     (case myProfile of
        None \<Rightarrow> []
      | Some me \<Rightarrow>
          if session = None then []
          else if list_ex (\<lambda>friend. p_id friend = p_id friendProfileToAdd) friendProfiles
          then [Alert AlreadyFriend]
          else
            let friendEntry1 = \<lparr>f_user_id = p_id me, f_friend_id = p_id friendProfileToAdd,
                                f_status = ''accepted''\<rparr>;
                friendEntry2 = \<lparr>f_user_id = p_id friendProfileToAdd, f_friend_id = p_id me,
                                f_status = ''accepted''\<rparr>
            in [InsertFriend friendEntry1, InsertFriend friendEntry2] @
               (if insertError1 \<noteq> None \<or> insertError2 \<noteq> None
                then
                  (case insertError1 of
                     None \<Rightarrow> []
                   | Some e1 \<Rightarrow>
                       if code e1 \<noteq> ''23505''
                       then [ConsoleError ''Error adding friend (entry1):'' e1] else []) @
                  (case insertError2 of
                     None \<Rightarrow> []
                   | Some e2 \<Rightarrow>
                       if code e2 \<noteq> ''23505''
                       then [ConsoleError ''Error adding friend (entry2):'' e2] else []) @
                  [Alert AddFriendFailed]
                else [Alert (FriendAdded (displayName friendProfileToAdd)),
                      SetFriendIdToSearch [], SetSearchResults [], FetchFriends]))"

section \<open>Sending a message\<close>

text \<open>
  \<^verbatim>\<open>String.prototype.trim\<close> removes white space and line terminators from both ends.
  Among the code units below 256 these are tab, line feed, vertical tab, form feed,
  carriage return, space and the no-break space.
\<close>

definition isWhiteSpace :: "char \<Rightarrow> bool" where
  "isWhiteSpace c = (c \<in> set [CHR 0x09, CHR 0x0A, CHR 0x0B, CHR 0x0C, CHR 0x0D, CHR 0x20, CHR 0xA0])"

definition trim :: "string \<Rightarrow> string" where
  "trim s = rev (dropWhile isWhiteSpace (rev (dropWhile isWhiteSpace s)))"

text \<open>
  \<^verbatim>\<open>handleSendMessage\<close>:
  \<^verbatim>\<open>if (!newMessage.trim() && !uploadingImage) return;\<close>
  then one insert of \<^verbatim>\<open>{ user_id, room_id, content: newMessage }\<close> (no
  \<^verbatim>\<open>image_url\<close>), and the input is cleared when the insert did not fail.
  \<open>insertError\<close> is the error of that insert.
\<close>

definition handleSendMessage ::
  "PgError option \<Rightarrow> string \<Rightarrow> string \<Rightarrow> string \<Rightarrow> bool \<Rightarrow> effect list" where
  "handleSendMessage insertError userId currentRoomId newMessage uploadingImage =
     (if trim newMessage = [] \<and> \<not> uploadingImage then []
      else
        InsertMessage \<lparr>i_user_id = userId, i_room_id = currentRoomId,
                       i_content = Some newMessage, i_image_url = None\<rparr>
        # (case insertError of
             Some e \<Rightarrow> [ConsoleError ''Error sending message:'' e]
           | None \<Rightarrow> [SetNewMessage []]))"

text \<open>
  The handler is called by the form only. Its button has
  \<^verbatim>\<open>disabled={!newMessage.trim() || uploadingImage}\<close>, and its text input has
  \<^verbatim>\<open>disabled={uploadingImage}\<close>.
\<close>

definition submitDisabled :: "string \<Rightarrow> bool \<Rightarrow> bool" where
  "submitDisabled newMessage uploadingImage = (trim newMessage = [] \<or> uploadingImage)"

section \<open>Notions used in the statements\<close>

text \<open>
  The order of the specification: by creation timestamp, ties broken by id. The
  timestamps are ISO texts of one format, compared as strings.
\<close>

definition sortKey :: "Message \<Rightarrow> string \<times> string" where
  "sortKey m = (m_created_at m, m_id m)"

definition orderedByTimestampId :: "Message list \<Rightarrow> bool" where
  "orderedByTimestampId ms = sorted (map sortKey ms)"

definition noDuplicateIds :: "Message list \<Rightarrow> bool" where
  "noDuplicateIds ms = distinct (map m_id ms)"

text \<open>How often a message id occurs in a view.\<close>

definition occurrences :: "string \<Rightarrow> Message list \<Rightarrow> nat" where
  "occurrences i ms = count_list (map m_id ms) i"

text \<open>The last \<open>n\<close> elements of a list (all of it when it is shorter).\<close>

definition lastN :: "nat \<Rightarrow> 'a list \<Rightarrow> 'a list" where
  "lastN n xs = drop (length xs - n) xs"

text \<open>
  The messages that a sequence of live events adds to a view: those of its
  \<^verbatim>\<open>INSERT\<close> events, in the order of delivery.
\<close>

definition isInsert :: "Payload \<times> Profile option \<Rightarrow> bool" where
  "isInsert ev = (eventType (fst ev) = ''INSERT'')"

definition toMessage :: "Payload \<times> Profile option \<Rightarrow> Message" where
  "toMessage ev = withProfile (new (fst ev)) (snd ev)"

definition liveMessages :: "(Payload \<times> Profile option) list \<Rightarrow> Message list" where
  "liveMessages events = map toMessage (filter isInsert events)"

text \<open>The first entries of a list, those that \<open>lastN n\<close> leaves out.\<close>

definition firstDropped :: "nat \<Rightarrow> 'a list \<Rightarrow> 'a list" where
  "firstDropped n xs = take (length xs - n) xs"

text \<open>A live event as a step of the conversation.\<close>

definition liveStep :: "Payload \<times> Profile option \<Rightarrow> step" where
  "liveStep ev = LiveEvent (fst ev) (snd ev)"

text \<open>
  The sequence that a view stands for after some steps, before it is cut to 200 entries:
  the rows of the latest bulk read that was answered without an error (the view at the
  start when there is none), followed by the messages that the live events after it
  inserted, in the order of delivery.
\<close>

fun sinceLastRead :: "Message list \<Rightarrow> step list \<Rightarrow> Message list" where
  "sinceLastRead v [] = v"
| "sinceLastRead v (LiveEvent payload profileData # ss) =
     sinceLastRead (if eventType payload = ''INSERT''
                    then v @ [withProfile (new payload) profileData] else v) ss"
| "sinceLastRead v (ReadAnswer response # ss) = sinceLastRead (fetchMessages response v) ss"

text \<open>The bulk read asks for at most 200 rows (\<^verbatim>\<open>.limit(200)\<close>).\<close>

fun withinLimit :: "step \<Rightarrow> bool" where
  "withinLimit (LiveEvent payload profileData) = True"
| "withinLimit (ReadAnswer response) =
     (case data response of None \<Rightarrow> True | Some d \<Rightarrow> length d \<le> 200)"

subsection \<open>Concrete inputs\<close>

text \<open>
  Two rows of one room, \<open>rowA\<close> created one second before \<open>rowB\<close>, and the events
  that announce them; the profile lookup of each fails, so no profile is joined.
\<close>

definition rowA :: MessageRow where
  "rowA = \<lparr>m_id = ''a'', m_created_at = ''2024-01-01T00:00:01Z'', m_user_id = ''u1'',
           m_room_id = ''u1_u2'', m_content = Some ''hi'', m_image_url = None\<rparr>"

definition rowB :: MessageRow where
  "rowB = \<lparr>m_id = ''b'', m_created_at = ''2024-01-01T00:00:02Z'', m_user_id = ''u2'',
           m_room_id = ''u1_u2'', m_content = Some ''ho'', m_image_url = None\<rparr>"

definition insertEvent :: "MessageRow \<Rightarrow> Payload \<times> Profile option" where
  "insertEvent row = (\<lparr>eventType = ''INSERT'', new = row\<rparr>, None)"

definition updateEvent :: "MessageRow \<Rightarrow> Payload" where
  "updateEvent row = \<lparr>eventType = ''UPDATE'', new = row\<rparr>"

text \<open>
  A conversation opened on a room that already has 200 messages, all of the last day of
  2023: the first bulk read is answered with them, which changes the length of the view,
  so the effect starts a second read, which is answered with the same rows. From then on
  the view has 200 entries, a merge does not change its length any more, and no further
  read is started. \<open>afterFullRead events\<close> are these two answers followed by the live
  events \<open>events\<close>.
\<close>

definition storedRow :: "nat \<Rightarrow> MessageRow" where
  "storedRow n = \<lparr>m_id = replicate (Suc n) (CHR ''s''), m_created_at = ''2023-12-31T00:00:00Z'',
                  m_user_id = ''u2'', m_room_id = ''u1_u2'', m_content = Some ''ok'',
                  m_image_url = None\<rparr>"

definition storedMessage :: "nat \<Rightarrow> Message" where
  "storedMessage n = withProfile (storedRow n) None"

definition fullRoom :: "Message list" where
  "fullRoom = map storedMessage [0..<200]"

definition fullAnswer :: FetchResponse where
  "fullAnswer = \<lparr>data = Some fullRoom, error = None\<rparr>"

definition afterFullRead :: "(Payload \<times> Profile option) list \<Rightarrow> step list" where
  "afterFullRead events = ReadAnswer fullAnswer # ReadAnswer fullAnswer # map liveStep events"

text \<open>Two rows created after that, \<open>rowC\<close> one second before \<open>rowD\<close>.\<close>

definition rowC :: MessageRow where
  "rowC = \<lparr>m_id = ''c'', m_created_at = ''2024-01-03T00:00:01Z'', m_user_id = ''u1'',
           m_room_id = ''u1_u2'', m_content = Some ''hi'', m_image_url = None\<rparr>"

definition rowD :: MessageRow where
  "rowD = \<lparr>m_id = ''d'', m_created_at = ''2024-01-03T00:00:02Z'', m_user_id = ''u2'',
           m_room_id = ''u1_u2'', m_content = Some ''ho'', m_image_url = None\<rparr>"

text \<open>
  A conversation opened on a room with the one message of \<open>rowA\<close>: the first read is
  answered with it, the event of \<open>rowB\<close> is merged, and the two reads that these
  changes of the length have started are answered with both messages.
\<close>

definition smallTrace :: "step list" where
  "smallTrace =
     [ReadAnswer \<lparr>data = Some [withProfile rowA None], error = None\<rparr>,
      liveStep (insertEvent rowB),
      ReadAnswer \<lparr>data = Some [withProfile rowA None, withProfile rowB None], error = None\<rparr>,
      ReadAnswer \<lparr>data = Some [withProfile rowA None, withProfile rowB None], error = None\<rparr>]"

text \<open>
  201 further distinct messages: 200 of the second of January, \<open>recentRow 0\<close> to
  \<open>recentRow 199\<close>, delivered first, and one of the first of January, \<open>oldRow\<close>,
  delivered last; and the view that they leave.
\<close>

definition recentRow :: "nat \<Rightarrow> MessageRow" where
  "recentRow n = \<lparr>m_id = replicate (Suc n) (CHR ''r''), m_created_at = ''2024-01-02T00:00:00Z'',
                  m_user_id = ''u1'', m_room_id = ''u1_u2'', m_content = Some ''hi'',
                  m_image_url = None\<rparr>"

definition oldRow :: MessageRow where
  "oldRow = \<lparr>m_id = ''old'', m_created_at = ''2024-01-01T00:00:00Z'', m_user_id = ''u2'',
             m_room_id = ''u1_u2'', m_content = Some ''first'', m_image_url = None\<rparr>"

definition lateDelivery :: "(Payload \<times> Profile option) list" where
  "lateDelivery = map insertEvent (map recentRow [0..<200]) @ [insertEvent oldRow]"

definition recentMessage :: "nat \<Rightarrow> Message" where
  "recentMessage n = withProfile (recentRow n) None"

definition lateView :: "Message list" where
  "lateView = map recentMessage [1..<200] @ [withProfile oldRow None]"

text \<open>Two profiles, and the error object of a violated uniqueness constraint.\<close>

definition alice :: Profile where
  "alice = \<lparr>p_id = ''u1'', p_username = Some ''alice'', p_avatar_url = None,
            p_short_id = ''2bd806c''\<rparr>"

definition bob :: Profile where
  "bob = \<lparr>p_id = ''u2'', p_username = Some ''bob'', p_avatar_url = None,
          p_short_id = ''81b637d''\<rparr>"


definition uniqueViolation :: PgError where
  "uniqueViolation = \<lparr>code = ''23505''\<rparr>"

section \<open>Auxiliary facts\<close>

lemma appendMessage_eq: "appendMessage m v = lastN 200 (v @ [m])"
  by (simp add: appendMessage_def Let_def lastN_def)

lemma lastN_snoc: "lastN n (lastN n xs @ [x]) = lastN n (xs @ [x])"
proof -
  have "Suc (length xs) - (length xs - n + n) + (length xs - n) = Suc (length xs) - n"
    by arith
  then show ?thesis by (simp add: lastN_def)
qed

lemma lastN_short: "length xs \<le> n \<Longrightarrow> lastN n xs = xs"
  by (simp add: lastN_def)

lemma length_lastN: "length (lastN n xs) \<le> n"
  by (simp add: lastN_def)

lemma mergeAll_snoc:
  "mergeAll v (events @ [ev]) = messageListener (fst ev) (snd ev) (mergeAll v events)"
  by (simp add: mergeAll_def split: prod.splits)

text \<open>
  The view after any sequence of live events: the old view followed by the inserted
  messages in the order of delivery, cut to its last 200 entries.
\<close>

lemma mergeAll_eq:
  "length v \<le> 200 \<Longrightarrow> mergeAll v events = lastN 200 (v @ liveMessages events)"
proof (induction events rule: rev_induct)
  case Nil
  then show ?case by (simp add: mergeAll_def liveMessages_def lastN_short)
next
  case (snoc ev events)
  show ?case
  proof (cases "isInsert ev")
    case True
    then show ?thesis
      using snoc
      by (simp add: mergeAll_snoc messageListener_def isInsert_def liveMessages_def
          appendMessage_eq toMessage_def lastN_snoc flip: append_assoc)
  next
    case False
    then show ?thesis
      using snoc
      by (simp add: mergeAll_snoc messageListener_def isInsert_def liveMessages_def)
  qed
qed

lemma sorted_lastN: "sorted (map f xs) \<Longrightarrow> sorted (map f (lastN n xs))"
  by (simp add: lastN_def flip: drop_map)

lemma distinct_lastN: "distinct (map f xs) \<Longrightarrow> distinct (map f (lastN n xs))"
  by (simp add: lastN_def flip: drop_map)

lemma withProfile_id: "m_id (withProfile r p) = m_id r"
  by (simp add: withProfile_def)

lemma occurrences_lastN_snoc:
  assumes "m_id m \<notin> set (map m_id prev)" "0 < n"
  shows "occurrences (m_id m) (lastN n (prev @ [m])) = 1"
proof -
  have "m_id m \<notin> set (drop (Suc (length prev) - n) (map m_id prev))"
    using assms(1) in_set_dropD by fastforce
  then have "count_list (drop (Suc (length prev) - n) (map m_id prev)) (m_id m) = 0"
    by simp
  moreover have "Suc (length prev) - n \<le> length prev" using assms(2) by arith
  ultimately show ?thesis
    by (simp add: occurrences_def lastN_def drop_map)
qed

lemma last_lastN_snoc: "0 < n \<Longrightarrow> last (lastN n (prev @ [m])) = m"
  by (simp add: lastN_def)

text \<open>The view follows the steps: cutting at every step is cutting once at the end.\<close>

lemma messages_effectAfter: "messages (effectAfter n st) = messages st"
  by (simp add: effectAfter_def)

lemma fetch_view:
  "withinLimit (ReadAnswer response) \<Longrightarrow>
   fetchMessages response (lastN 200 u) = lastN 200 (fetchMessages response u)"
  by (simp add: fetchMessages_def lastN_short split: option.splits)

lemma applyStep_view:
  assumes "applyStep st s = Some st1" "messages st = lastN 200 u" "withinLimit s"
  shows "messages st1 = lastN 200 (sinceLastRead u [s])"
proof (cases s)
  case (LiveEvent payload profileData)
  with assms show ?thesis
    by (auto simp: messages_effectAfter messageListener_def appendMessage_eq lastN_snoc)
next
  case (ReadAnswer response)
  with assms show ?thesis
    by (auto simp: messages_effectAfter fetch_view split: if_splits)
qed

lemma sinceLastRead_Cons: "sinceLastRead u (s # ss) = sinceLastRead (sinceLastRead u [s]) ss"
  by (cases s) simp_all

lemma run_view:
  "run st ss = Some st' \<Longrightarrow> messages st = lastN 200 u \<Longrightarrow> list_all withinLimit ss \<Longrightarrow>
   messages st' = lastN 200 (sinceLastRead u ss)"
proof (induction ss arbitrary: st u)
  case Nil
  then show ?case by simp
next
  case (Cons s ss)
  from Cons.prems(1) obtain st1 where
    step: "applyStep st s = Some st1" and rest: "run st1 ss = Some st'"
    by (auto split: option.splits)
  from step Cons.prems(2,3) have "messages st1 = lastN 200 (sinceLastRead u [s])"
    by (intro applyStep_view) simp_all
  with rest Cons.prems(3) have "messages st' = lastN 200 (sinceLastRead (sinceLastRead u [s]) ss)"
    by (intro Cons.IH) simp_all
  then show ?case by (simp add: sinceLastRead_Cons [of u s ss])
qed

text \<open>A view of 200 entries: a merge keeps the length, so no bulk read is started.\<close>

lemma length_listener_full:
  "length v = 200 \<Longrightarrow> length (messageListener payload profileData v) = 200"
  by (simp add: messageListener_def appendMessage_def Let_def)

lemma mergeAll_Cons:
  "mergeAll v (ev # events) = mergeAll (messageListener (fst ev) (snd ev) v) events"
  by (simp add: mergeAll_def split: prod.splits)

lemma run_liveStep_full:
  "length v = 200 \<Longrightarrow>
   run \<lparr>messages = v, pendingReads = p\<rparr> (liveStep ev # ss)
     = run \<lparr>messages = messageListener (fst ev) (snd ev) v, pendingReads = p\<rparr> ss"
  by (simp add: liveStep_def effectAfter_def length_listener_full)

lemma run_live_full:
  "length v = 200 \<Longrightarrow>
   run \<lparr>messages = v, pendingReads = p\<rparr> (map liveStep events)
     = Some \<lparr>messages = mergeAll v events, pendingReads = p\<rparr>"
proof (induction events arbitrary: v)
  case Nil
  then show ?case by (simp add: mergeAll_def)
next
  case (Cons ev events)
  have "length (messageListener (fst ev) (snd ev) v) = 200"
    using Cons.prems by (rule length_listener_full)
  then have "run \<lparr>messages = messageListener (fst ev) (snd ev) v, pendingReads = p\<rparr>
               (map liveStep events)
     = Some \<lparr>messages = mergeAll (messageListener (fst ev) (snd ev) v) events,
             pendingReads = p\<rparr>"
    by (rule Cons.IH)
  then show ?case
    using Cons.prems by (simp add: run_liveStep_full mergeAll_Cons del: run.simps)
qed

lemma firstDropped_lastN: "firstDropped n xs @ lastN n xs = xs"
  by (simp add: firstDropped_def lastN_def)

lemma sorted_dropped_kept:
  assumes "sorted (map f xs)"
  shows "\<forall>x\<in>set (firstDropped n xs). \<forall>y\<in>set (lastN n xs). f x \<le> f y"
proof -
  have "sorted (map f (firstDropped n xs) @ map f (lastN n xs))"
    using assms by (simp add: firstDropped_lastN flip: map_append)
  then show ?thesis by (auto simp: sorted_append)
qed

text \<open>The conversation on the room of 200 messages.\<close>

lemma length_fullRoom: "length fullRoom = 200"
  by (simp add: fullRoom_def)

lemma run_afterFullRead:
  "run mounted (afterFullRead events)
     = Some \<lparr>messages = lastN 200 (fullRoom @ liveMessages events), pendingReads = 0\<rparr>"
proof -
  have "run mounted (afterFullRead events)
          = run \<lparr>messages = fullRoom, pendingReads = 0\<rparr> (map liveStep events)"
    by (simp add: afterFullRead_def mounted_def fullAnswer_def fetchMessages_def effectAfter_def
        length_fullRoom)
  also have "\<dots> = Some \<lparr>messages = mergeAll fullRoom events, pendingReads = 0\<rparr>"
    using length_fullRoom by (rule run_live_full)
  finally show ?thesis
    using mergeAll_eq [of fullRoom events] by (simp add: length_fullRoom)
qed

lemma liveMessages_two:
  "liveMessages [insertEvent r1, insertEvent r2] = [withProfile r1 None, withProfile r2 None]"
  by (simp add: liveMessages_def isInsert_def insertEvent_def toMessage_def)

lemma lastN_full_two: "lastN 200 (fullRoom @ [x, y]) = drop 2 fullRoom @ [x, y]"
  by (simp add: lastN_def length_fullRoom)

lemma take_two_fullRoom: "take 2 fullRoom = [storedMessage 0, storedMessage 1]"
proof -
  have "take 2 (map storedMessage [0..<200]) = map storedMessage (take 2 [0..<200])"
    by (simp only: take_map)
  also have "take 2 [0..<200] = [0, Suc 0]" by (simp only: take_upt) simp
  finally show ?thesis by (simp add: fullRoom_def)
qed

lemma firstDropped_full_two:
  "firstDropped 200 (fullRoom @ [x, y]) = [storedMessage 0, storedMessage 1]"
  by (simp add: firstDropped_def length_fullRoom take_two_fullRoom)

text \<open>The view that the 201 events of \<open>lateDelivery\<close> leave.\<close>

lemma liveMessages_lateDelivery:
  "liveMessages lateDelivery = map recentMessage [0..<200] @ [withProfile oldRow None]"
  by (simp add: liveMessages_def lateDelivery_def isInsert_def insertEvent_def toMessage_def
      comp_def recentMessage_def)

lemma lastN_fullRoom_late: "lastN 200 (fullRoom @ liveMessages lateDelivery) = lateView"
proof -
  have "lastN 200 (fullRoom @ liveMessages lateDelivery)
          = drop 1 (map recentMessage [0..<200]) @ [withProfile oldRow None]"
    by (simp add: liveMessages_lateDelivery lastN_def length_fullRoom)
  also have "drop 1 (map recentMessage [0..<200]) = map recentMessage [1..<200]"
    by (simp only: drop_map drop_upt) simp
  finally show ?thesis by (simp add: lateView_def)
qed

lemma distinct_late: "noDuplicateIds (fullRoom @ liveMessages lateDelivery)"
  by (auto simp: noDuplicateIds_def fullRoom_def liveMessages_lateDelivery comp_def
      storedMessage_def recentMessage_def withProfile_id storedRow_def recentRow_def oldRow_def
      distinct_map inj_on_def)

lemma recentRow_id_inj: "m_id (recentRow i) = m_id (recentRow j) \<Longrightarrow> i = j"
proof -
  assume "m_id (recentRow i) = m_id (recentRow j)"
  then have "length (m_id (recentRow i)) = length (m_id (recentRow j))" by simp
  then show "i = j" by (simp add: recentRow_def)
qed

lemma old_not_recent: "m_id oldRow \<noteq> m_id (recentRow n)"
  by (simp add: oldRow_def recentRow_def)

lemma less_append_self: "ys \<noteq> [] \<Longrightarrow> (xs::string) < xs @ ys"
  by (simp add: lexordp_append_rightI lexordp_induct)

lemma le_append_self: "(xs::string) \<le> xs @ ys"
  by (cases "ys = []") (simp_all add: less_append_self less_imp_le)

text \<open>The 200 stored messages are ordered, and all are older than \<open>rowC\<close>.\<close>

lemma sortKey_stored_mono:
  assumes "i \<le> j"
  shows "sortKey (storedMessage i) \<le> sortKey (storedMessage j)"
proof -
  have "replicate (Suc j) (CHR ''s'')
          = replicate (Suc i) (CHR ''s'') @ replicate (j - i) (CHR ''s'')"
    using assms by (simp add: replicate_add [symmetric] del: replicate_Suc)
  then have "replicate (Suc i) (CHR ''s'') \<le> replicate (Suc j) (CHR ''s'')"
    using le_append_self [of "replicate (Suc i) (CHR ''s'')"] by simp
  then show ?thesis
    by (simp add: sortKey_def storedMessage_def withProfile_def storedRow_def less_eq_prod_def
        del: replicate_Suc)
qed

lemma ordered_fullRoom: "sorted (map sortKey fullRoom)"
proof -
  have "sorted_wrt (\<lambda>i j. sortKey (storedMessage i) \<le> sortKey (storedMessage j)) [0..<200]"
    by (rule sorted_wrt_mono_rel [of _ "(\<le>)"]) (auto intro: sortKey_stored_mono)
  then show ?thesis
    by (simp add: fullRoom_def sorted_wrt_map comp_def)
qed

lemma stored_before_rowC: "sortKey (storedMessage n) \<le> sortKey (withProfile rowC None)"
  by (simp add: sortKey_def storedMessage_def withProfile_def storedRow_def rowC_def
      less_eq_prod_def del: replicate_Suc)

lemma ordered_full_then_CD:
  "orderedByTimestampId (fullRoom @ [withProfile rowC None, withProfile rowD None])"
proof -
  have cd: "sortKey (withProfile rowC None) \<le> sortKey (withProfile rowD None)"
    by (simp add: sortKey_def withProfile_def rowC_def rowD_def)
  have "\<forall>x\<in>set fullRoom. sortKey x \<le> sortKey (withProfile rowC None)"
    by (auto simp: fullRoom_def stored_before_rowC)
  then show ?thesis
    using ordered_fullRoom cd
    by (auto simp: orderedByTimestampId_def sorted_append intro: order_trans)
qed

text \<open>
  The two ways of ordering a pair cannot give the same room identifier when the shared
  identifier has no underscore.
\<close>

lemma roomId_mixed:
  assumes "CHR ''_'' \<notin> set a" "a < b" "\<not> a < c" "a @ ''_'' @ b = c @ ''_'' @ a"
  shows False
proof -
  from assms(4) obtain us where
    "(a = c @ us \<and> us @ ''_'' @ b = ''_'' @ a) \<or> (a @ us = c \<and> ''_'' @ b = us @ ''_'' @ a)"
    by (auto simp: append_eq_append_conv2)
  then show False
  proof
    assume h: "a = c @ us \<and> us @ ''_'' @ b = ''_'' @ a"
    show False
    proof (cases us)
      case Nil
      with h assms(2) show False by simp
    next
      case (Cons u us')
      with h have "u = CHR ''_''" by simp
      with h Cons assms(1) show False by auto
    qed
  next
    assume h: "a @ us = c \<and> ''_'' @ b = us @ ''_'' @ a"
    show False
    proof (cases "us = []")
      case True
      with h assms(2) show False by simp
    next
      case False
      then have "a < a @ us" by (rule less_append_self)
      with h assms(3) show False by simp
    qed
  qed
qed

section \<open>Properties of the room identifier\<close>

text \<open>
  C4: \<open>getRoomId\<close> is a total function of its two arguments and is commutative, for all
  identifiers, the self-chat pair \<open>a = b\<close> included.
\<close>

theorem getRoomId_commute: "getRoomId a b = getRoomId b a"
  by (auto simp: getRoomId_def)

text \<open>
  C5, as stated: for arbitrary strings \<open>a\<close>, \<open>b\<close>, \<open>c\<close> with \<open>b \<noteq> c\<close> the identifiers
  \<open>getRoomId a b\<close> and \<open>getRoomId a c\<close> differ. This fails when the identifiers
  contain the separator: with \<open>a = ''_x_''\<close> the peers \<open>''x_''\<close> and \<open>''_x''\<close> get the
  same room.
\<close>

theorem getRoomId_collision:
  "''x_'' \<noteq> ''_x'' \<and> getRoomId ''_x_'' ''x_'' = getRoomId ''_x_'' ''_x''"
  by (simp add: getRoomId_def)

text \<open>
  C5, amended: whenever the shared identifier \<open>a\<close> contains no underscore (as the
  identifiers that the authentication provider assigns do not) and \<open>b \<noteq> c\<close>, the
  identifiers \<open>getRoomId a b\<close> and \<open>getRoomId a c\<close> differ.
\<close>

theorem getRoomId_inj:
  assumes "CHR ''_'' \<notin> set a" "b \<noteq> c"
  shows "getRoomId a b \<noteq> getRoomId a c"
proof
  assume eq: "getRoomId a b = getRoomId a c"
  show False
  proof (cases "a < b")
    case ab: True
    show False
    proof (cases "a < c")
      case True
      with ab eq assms(2) show False by (simp add: getRoomId_def)
    next
      case False
      with ab eq assms(1) roomId_mixed[of a b c] show False by (simp add: getRoomId_def)
    qed
  next
    case ab: False
    show False
    proof (cases "a < c")
      case True
      with ab eq assms(1) roomId_mixed[of a c b] show False by (simp add: getRoomId_def)
    next
      case False
      with ab eq assms(2) show False by (simp add: getRoomId_def)
    qed
  qed
qed

theorem getRoomId_inj_witness:
  "CHR ''_'' \<notin> set ''alice'' \<and> ''bob'' \<noteq> ''carol'' \<and>
   getRoomId ''alice'' ''bob'' \<noteq> getRoomId ''alice'' ''carol''"
  using getRoomId_inj [of "''alice''" "''bob''" "''carol''"] by simp

section \<open>Properties of the conversation view\<close>

text \<open>
  C1, as stated: merging the same message-created event twice yields a view in which the
  message appears exactly once, and merging an event whose id is already in the view
  leaves the view unchanged. The listener has no check for an id that is already there:
  the event of \<open>rowA\<close> merged twice into the empty view leaves two entries with the id
  of \<open>rowA\<close>, and merged into a view that holds the message it changes the view.
\<close>

theorem duplicate_event_appears_twice:
  "occurrences (m_id rowA) (mergeAll [] [insertEvent rowA, insertEvent rowA]) = 2 \<and>
   messageListener (fst (insertEvent rowA)) None [withProfile rowA None]
     \<noteq> [withProfile rowA None]"
  by (simp add: occurrences_def mergeAll_def messageListener_def insertEvent_def
      appendMessage_def withProfile_def rowA_def)

text \<open>
  C1, amended: merging a message-created event appends its message to the view and keeps
  the last 200 entries, so that the message is the last entry of the new view; when its
  id was not in the view before, the message appears in the new view exactly once.
\<close>

theorem merge_new_id_once:
  assumes "eventType payload = ''INSERT''"
  shows "messageListener payload profileData prevMessages
           = lastN 200 (prevMessages @ [withProfile (new payload) profileData]) \<and>
         last (messageListener payload profileData prevMessages)
           = withProfile (new payload) profileData \<and>
         (m_id (new payload) \<notin> set (map m_id prevMessages) \<longrightarrow>
            occurrences (m_id (new payload))
              (messageListener payload profileData prevMessages) = 1)"
proof -
  let ?m = "withProfile (new payload) profileData"
  have view: "messageListener payload profileData prevMessages = lastN 200 (prevMessages @ [?m])"
    using assms by (simp add: messageListener_def appendMessage_eq)
  have "occurrences (m_id ?m) (lastN 200 (prevMessages @ [?m])) = 1"
    if "m_id (new payload) \<notin> set (map m_id prevMessages)"
    using that by (intro occurrences_lastN_snoc) (simp_all add: withProfile_id)
  then show ?thesis
    by (simp add: view withProfile_id last_lastN_snoc)
qed

theorem merge_new_id_once_witness:
  "eventType (fst (insertEvent rowB)) = ''INSERT'' \<and>
   m_id (new (fst (insertEvent rowB))) \<notin> set (map m_id [withProfile rowA None]) \<and>
   messageListener (fst (insertEvent rowB)) None [withProfile rowA None]
     = [withProfile rowA None, withProfile rowB None] \<and>
   last (messageListener (fst (insertEvent rowB)) None [withProfile rowA None])
     = withProfile rowB None \<and>
   occurrences ''b'' (messageListener (fst (insertEvent rowB)) None [withProfile rowA None]) = 1"
proof -
  have ins: "eventType (fst (insertEvent rowB)) = ''INSERT''"
    by (simp add: insertEvent_def)
  have row: "new (fst (insertEvent rowB)) = rowB"
    by (simp add: insertEvent_def)
  have fresh: "m_id rowB \<notin> set (map m_id [withProfile rowA None])"
    by (simp add: withProfile_def rowA_def rowB_def)
  have b: "m_id rowB = ''b''"
    by (simp add: rowB_def)
  have cut: "lastN 200 ([withProfile rowA None] @ [withProfile rowB None])
               = [withProfile rowA None, withProfile rowB None]"
    by (simp add: lastN_def)
  show ?thesis
    using merge_new_id_once [OF ins, of None "[withProfile rowA None]"] fresh ins
    unfolding row cut b
    by blast
qed

text \<open>
  C2, as stated: after the bulk read and any sequence of live merges the view is ordered
  by (timestamp, id), has no duplicate ids, and does not depend on the order of delivery.
  In the conversation on the room of 200 messages, with every bulk read answered, the
  event of \<open>rowD\<close> delivered before that of the older \<open>rowC\<close> leaves a view that is not
  ordered and that differs from the view of the other order of delivery, and the event
  of \<open>rowC\<close> delivered twice leaves a duplicate id; in each case no bulk read is pending
  at the end.
\<close>

theorem delivery_order_decides:
  "run mounted (afterFullRead [insertEvent rowD, insertEvent rowC])
     = Some \<lparr>messages = drop 2 fullRoom @ [withProfile rowD None, withProfile rowC None],
             pendingReads = 0\<rparr> \<and>
   \<not> orderedByTimestampId (drop 2 fullRoom @ [withProfile rowD None, withProfile rowC None]) \<and>
   run mounted (afterFullRead [insertEvent rowC, insertEvent rowD])
     = Some \<lparr>messages = drop 2 fullRoom @ [withProfile rowC None, withProfile rowD None],
             pendingReads = 0\<rparr> \<and>
   run mounted (afterFullRead [insertEvent rowD, insertEvent rowC])
     \<noteq> run mounted (afterFullRead [insertEvent rowC, insertEvent rowD]) \<and>
   run mounted (afterFullRead [insertEvent rowC, insertEvent rowC])
     = Some \<lparr>messages = drop 2 fullRoom @ [withProfile rowC None, withProfile rowC None],
             pendingReads = 0\<rparr> \<and>
   \<not> noDuplicateIds (drop 2 fullRoom @ [withProfile rowC None, withProfile rowC None])"
proof -
  have 1: "\<not> orderedByTimestampId
               (drop 2 fullRoom @ [withProfile rowD None, withProfile rowC None])"
    by (simp add: orderedByTimestampId_def sorted_append sortKey_def withProfile_def
        rowC_def rowD_def)
  have 2: "\<not> noDuplicateIds (drop 2 fullRoom @ [withProfile rowC None, withProfile rowC None])"
    by (simp add: noDuplicateIds_def)
  have 3: "withProfile rowD None \<noteq> withProfile rowC None"
    by (simp add: withProfile_def rowC_def rowD_def)
  show ?thesis
    using 1 2 3 by (simp add: run_afterFullRead liveMessages_two lastN_full_two)
qed

text \<open>
  C2, amended: after any sequence of answers of bulk reads, each of at most 200 rows,
  and of live merges, on a view of at most 200 entries, the view is the rows of the
  latest bulk read that was answered without an error, followed by the messages merged
  since then in their order of delivery, cut to its last 200 entries. It is ordered by
  (timestamp, id) whenever that sequence is, and it has no duplicate ids whenever that
  sequence has none.
\<close>

theorem view_after_reads_and_merges:
  assumes "run st steps = Some st'"
    and "length (messages st) \<le> 200"
    and "list_all withinLimit steps"
  shows "messages st' = lastN 200 (sinceLastRead (messages st) steps) \<and>
         (orderedByTimestampId (sinceLastRead (messages st) steps) \<longrightarrow>
            orderedByTimestampId (messages st')) \<and>
         (noDuplicateIds (sinceLastRead (messages st) steps) \<longrightarrow> noDuplicateIds (messages st'))"
proof -
  have "messages st = lastN 200 (messages st)"
    using assms(2) by (simp add: lastN_short)
  with assms(1) have view: "messages st' = lastN 200 (sinceLastRead (messages st) steps)"
    using assms(3) by (rule run_view)
  show ?thesis
    unfolding view orderedByTimestampId_def noDuplicateIds_def
    using sorted_lastN [of sortKey "sinceLastRead (messages st) steps" 200]
      distinct_lastN [of m_id "sinceLastRead (messages st) steps" 200]
    by blast
qed

theorem view_after_reads_and_merges_witness:
  "run mounted smallTrace
     = Some \<lparr>messages = [withProfile rowA None, withProfile rowB None], pendingReads = 0\<rparr> \<and>
   length (messages mounted) \<le> 200 \<and>
   list_all withinLimit smallTrace \<and>
   sinceLastRead (messages mounted) smallTrace = [withProfile rowA None, withProfile rowB None] \<and>
   orderedByTimestampId (sinceLastRead (messages mounted) smallTrace) \<and>
   noDuplicateIds (sinceLastRead (messages mounted) smallTrace) \<and>
   orderedByTimestampId [withProfile rowA None, withProfile rowB None] \<and>
   noDuplicateIds [withProfile rowA None, withProfile rowB None]"
proof -
  have r: "run mounted smallTrace
     = Some \<lparr>messages = [withProfile rowA None, withProfile rowB None], pendingReads = 0\<rparr>"
    by (simp add: smallTrace_def mounted_def liveStep_def insertEvent_def fetchMessages_def
        effectAfter_def messageListener_def appendMessage_def)
  have l: "length (messages mounted) \<le> 200" by (simp add: mounted_def)
  have w: "list_all withinLimit smallTrace" by (simp add: smallTrace_def liveStep_def)
  have s: "sinceLastRead (messages mounted) smallTrace
             = [withProfile rowA None, withProfile rowB None]"
    by (simp add: smallTrace_def mounted_def liveStep_def insertEvent_def fetchMessages_def)
  have o: "orderedByTimestampId (sinceLastRead (messages mounted) smallTrace)"
    unfolding s
    by (simp add: orderedByTimestampId_def sortKey_def withProfile_def rowA_def rowB_def)
  have d: "noDuplicateIds (sinceLastRead (messages mounted) smallTrace)"
    unfolding s by (simp add: noDuplicateIds_def withProfile_def rowA_def rowB_def)
  have m: "messages \<lparr>messages = [withProfile rowA None, withProfile rowB None],
                      pendingReads = 0\<rparr>
             = [withProfile rowA None, withProfile rowB None]"
    by simp
  from view_after_reads_and_merges [OF r l w] o d
  have "orderedByTimestampId
          (messages \<lparr>messages = [withProfile rowA None, withProfile rowB None],
                     pendingReads = 0\<rparr>) \<and>
        noDuplicateIds
          (messages \<lparr>messages = [withProfile rowA None, withProfile rowB None],
                     pendingReads = 0\<rparr>)"
    by blast
  then have "orderedByTimestampId [withProfile rowA None, withProfile rowB None] \<and>
        noDuplicateIds [withProfile rowA None, withProfile rowB None]"
    unfolding m .
  with r l w s o d show ?thesis by blast
qed

text \<open>
  C3, as stated: merging 200 + k distinct messages leaves exactly the 200 most recent by
  (timestamp, id). In the conversation on the room of 200 messages, with every bulk read
  answered, the 201 further messages of \<open>lateDelivery\<close> leave the view \<open>lateView\<close>
  with no bulk read pending. All 401 messages are distinct; the view holds \<open>oldRow\<close>,
  the oldest of the 201, which was delivered last, and not the more recent
  \<open>recentRow 0\<close>, which was delivered first.
\<close>

theorem retention_keeps_late_old_message:
  "run mounted (afterFullRead lateDelivery) = Some \<lparr>messages = lateView, pendingReads = 0\<rparr> \<and>
   length (liveMessages lateDelivery) = 201 \<and>
   noDuplicateIds (fullRoom @ liveMessages lateDelivery) \<and>
   withProfile oldRow None \<in> set lateView \<and>
   recentMessage 0 \<in> set (liveMessages lateDelivery) \<and>
   recentMessage 0 \<notin> set lateView \<and>
   sortKey (withProfile oldRow None) < sortKey (recentMessage 0)"
proof -
  have 1: "run mounted (afterFullRead lateDelivery)
             = Some \<lparr>messages = lateView, pendingReads = 0\<rparr>"
    by (simp add: run_afterFullRead lastN_fullRoom_late)
  have 2: "length (liveMessages lateDelivery) = 201"
    by (simp add: liveMessages_lateDelivery)
  have 3: "withProfile oldRow None \<in> set lateView"
    by (simp add: lateView_def)
  have 4: "recentMessage 0 \<in> set (liveMessages lateDelivery)"
    by (simp add: liveMessages_lateDelivery)
  have "m_id (recentMessage 0) \<notin> m_id ` set lateView"
  proof
    assume "m_id (recentMessage 0) \<in> m_id ` set lateView"
    then have "m_id (recentRow 0) = m_id oldRow
        \<or> (\<exists>n\<in>{1..<200}. m_id (recentRow 0) = m_id (recentRow n))"
      by (auto simp: lateView_def recentMessage_def withProfile_id)
    then show False
      using old_not_recent [of 0] by (auto dest: recentRow_id_inj)
  qed
  then have 5: "recentMessage 0 \<notin> set lateView" by blast
  have 6: "sortKey (withProfile oldRow None) < sortKey (recentMessage 0)"
    by (simp add: sortKey_def withProfile_def oldRow_def recentRow_def recentMessage_def)
  from 1 2 distinct_late 3 4 5 6 show ?thesis by simp
qed

text \<open>
  C3, amended: the view has at most 200 entries after any merge. Once the view has 200
  entries, merging k further messages starts no bulk read and leaves the last 200
  entries of the view followed by these messages in their order of delivery: the first k
  entries of that sequence are dropped from the front. When that sequence is ordered by
  (timestamp, id), every entry kept is at least as recent as every entry dropped, so the
  200 kept are the 200 most recent.
\<close>

theorem retention_at_bound:
  assumes "length view = 200"
  shows "length (appendMessage msg prevMessages) \<le> 200 \<and>
         run \<lparr>messages = view, pendingReads = p\<rparr> (map liveStep events)
           = Some \<lparr>messages = lastN 200 (view @ liveMessages events), pendingReads = p\<rparr> \<and>
         length (lastN 200 (view @ liveMessages events)) = 200 \<and>
         firstDropped 200 (view @ liveMessages events) @ lastN 200 (view @ liveMessages events)
           = view @ liveMessages events \<and>
         length (firstDropped 200 (view @ liveMessages events)) = length (liveMessages events) \<and>
         (orderedByTimestampId (view @ liveMessages events) \<longrightarrow>
            (\<forall>x\<in>set (firstDropped 200 (view @ liveMessages events)).
               \<forall>y\<in>set (lastN 200 (view @ liveMessages events)). sortKey x \<le> sortKey y))"
proof -
  have 1: "length (appendMessage msg prevMessages) \<le> 200"
    by (simp add: appendMessage_eq length_lastN)
  have "run \<lparr>messages = view, pendingReads = p\<rparr> (map liveStep events)
          = Some \<lparr>messages = mergeAll view events, pendingReads = p\<rparr>"
    using assms by (rule run_live_full)
  then have 2: "run \<lparr>messages = view, pendingReads = p\<rparr> (map liveStep events)
           = Some \<lparr>messages = lastN 200 (view @ liveMessages events), pendingReads = p\<rparr>"
    using mergeAll_eq [of view events] assms by simp
  have 3: "length (lastN 200 (view @ liveMessages events)) = 200"
    using assms by (simp add: lastN_def)
  have 4: "length (firstDropped 200 (view @ liveMessages events)) = length (liveMessages events)"
    using assms by (simp add: firstDropped_def)
  show ?thesis
    using 1 2 3 4 firstDropped_lastN [of 200 "view @ liveMessages events"]
      sorted_dropped_kept [of sortKey "view @ liveMessages events" 200]
    unfolding orderedByTimestampId_def by blast
qed

theorem retention_at_bound_witness:
  "length fullRoom = 200 \<and>
   orderedByTimestampId (fullRoom @ liveMessages [insertEvent rowC, insertEvent rowD]) \<and>
   run \<lparr>messages = fullRoom, pendingReads = 0\<rparr> (map liveStep [insertEvent rowC, insertEvent rowD])
     = Some \<lparr>messages = drop 2 fullRoom @ [withProfile rowC None, withProfile rowD None],
             pendingReads = 0\<rparr> \<and>
   firstDropped 200 (fullRoom @ liveMessages [insertEvent rowC, insertEvent rowD])
     = [storedMessage 0, storedMessage 1] \<and>
   sortKey (storedMessage 1) \<le> sortKey (withProfile rowC None)"
proof -
  note inst = retention_at_bound [OF length_fullRoom, of "withProfile rowC None" "[]" 0
      "[insertEvent rowC, insertEvent rowD]"]
  have ord: "orderedByTimestampId (fullRoom @ liveMessages [insertEvent rowC, insertEvent rowD])"
    by (simp add: liveMessages_two ordered_full_then_CD)
  from inst ord have
    "\<forall>x\<in>set (firstDropped 200 (fullRoom @ liveMessages [insertEvent rowC, insertEvent rowD])).
       \<forall>y\<in>set (lastN 200 (fullRoom @ liveMessages [insertEvent rowC, insertEvent rowD])).
         sortKey x \<le> sortKey y"
    by blast
  then have le: "sortKey (storedMessage 1) \<le> sortKey (withProfile rowC None)"
    by (simp add: liveMessages_two firstDropped_full_two lastN_full_two)
  from inst have "run \<lparr>messages = fullRoom, pendingReads = 0\<rparr>
        (map liveStep [insertEvent rowC, insertEvent rowD])
     = Some \<lparr>messages = drop 2 fullRoom @ [withProfile rowC None, withProfile rowD None],
             pendingReads = 0\<rparr>"
    by (simp add: liveMessages_two lastN_full_two)
  with ord le show ?thesis
    by (simp add: length_fullRoom liveMessages_two firstDropped_full_two)
qed

text \<open>
  C10: a live event whose type is not \<^verbatim>\<open>INSERT\<close> leaves the message sequence of the
  view unchanged.
\<close>

theorem other_events_leave_view:
  "eventType payload \<noteq> ''INSERT'' \<Longrightarrow>
   messageListener payload profileData prevMessages = prevMessages"
  by (simp add: messageListener_def)

theorem other_events_leave_view_witness:
  "eventType (updateEvent rowA) \<noteq> ''INSERT'' \<and>
   messageListener (updateEvent rowA) None [withProfile rowB None] = [withProfile rowB None]"
  using other_events_leave_view [of "updateEvent rowA" None "[withProfile rowB None]"]
  by (simp add: updateEvent_def)

section \<open>Properties of profile provisioning\<close>

text \<open>
  C6: the short id has 7 characters for every input, also when the seed is absent. For
  an absent seed the code returns \<^verbatim>\<open>guest_id\<close>, which has 8 characters.
\<close>

theorem guest_short_id_has_eight_characters:
  "generatedShortId sha256 None = ''guest_id'' \<and> length (generatedShortId sha256 None) = 8"
  by (simp add: generatedShortId_def)

text \<open>
  The other branch of the short id: for a seed that is present and not empty it is the
  first 7 characters of the digest, 7 characters long when the digest has at least 7.
\<close>

lemma short_id_of_seed:
  "generatedShortId sha256 (Some (c # cs)) = take 7 (sha256 (c # cs))"
  by (simp add: generatedShortId_def)

lemma short_id_of_seed_length:
  "7 \<le> length (sha256 (c # cs)) \<Longrightarrow> length (generatedShortId sha256 (Some (c # cs))) = 7"
  by (simp add: generatedShortId_def)

text \<open>
  C8: when the read of the profile answers with the existing row, \<open>upsertProfile\<close>
  does nothing but set the profile of the page to that row; and whatever error comes with
  an existing row, no insert of a profile is sent.
\<close>

theorem existing_profile_kept:
  "upsertProfile sha256 rnd \<lparr>p_data = Some existingProfile, p_error = None\<rparr>
       insertResponse userId userEmail
     = [SetMyProfile (Some existingProfile)] \<and>
   InsertProfile row
     \<notin> set (upsertProfile sha256 rnd \<lparr>p_data = Some existingProfile, p_error = fetchError\<rparr>
              insertResponse userId userEmail)"
  by (simp add: upsertProfile_def Let_def split: option.splits)

section \<open>Properties of the friendship handler\<close>

text \<open>
  C7: a uniqueness violation of one of the two inserts is swallowed and the operation
  reports success. In the code, when the first insert fails with the code 23505 and the
  second succeeds, nothing is logged, but the alert of a failure is shown and the list
  of friends is not fetched again. When the friend is already in the list of friends, no
  insert is sent at all.
\<close>

theorem unique_violation_reported_as_failure:
  "handleAddFriend (Some me) (Some uid) [] (Some uniqueViolation) None friend =
     [InsertFriend \<lparr>f_user_id = p_id me, f_friend_id = p_id friend, f_status = ''accepted''\<rparr>,
      InsertFriend \<lparr>f_user_id = p_id friend, f_friend_id = p_id me, f_status = ''accepted''\<rparr>,
      Alert AddFriendFailed] \<and>
   handleAddFriend (Some me) (Some uid) [friend] insertError1 insertError2 friend
     = [Alert AlreadyFriend]"
  by (simp add: handleAddFriend_def uniqueViolation_def Let_def)

theorem unique_violation_reported_as_failure_witness:
  "handleAddFriend (Some alice) (Some ''u1'') [] (Some uniqueViolation) None bob =
     [InsertFriend \<lparr>f_user_id = ''u1'', f_friend_id = ''u2'', f_status = ''accepted''\<rparr>,
      InsertFriend \<lparr>f_user_id = ''u2'', f_friend_id = ''u1'', f_status = ''accepted''\<rparr>,
      Alert AddFriendFailed] \<and>
   handleAddFriend (Some alice) (Some ''u1'') [bob] (Some uniqueViolation) None bob
     = [Alert AlreadyFriend]"
  using unique_violation_reported_as_failure
    [of alice "''u1''" bob "Some uniqueViolation" None]
  by (simp add: alice_def bob_def)

section \<open>Properties of sending\<close>



text \<open>
  A submit through the enabled button always creates the message. The guard of the
  handler alone would also let an empty text through while an upload runs, which the
  form excludes.
\<close>

lemma enabled_submit_creates:
  "\<not> submitDisabled newMessage uploadingImage \<Longrightarrow>
   handleSendMessage insertError userId currentRoomId newMessage uploadingImage
     = InsertMessage \<lparr>i_user_id = userId, i_room_id = currentRoomId,
                      i_content = Some newMessage, i_image_url = None\<rparr>
       # (case insertError of
            Some e \<Rightarrow> [ConsoleError ''Error sending message:'' e]
          | None \<Rightarrow> [SetNewMessage []])"
  by (simp add: submitDisabled_def handleSendMessage_def)

lemma guard_while_uploading:
  "handleSendMessage None ''u1'' ''u1_u2'' [] True =
     [InsertMessage \<lparr>i_user_id = ''u1'', i_room_id = ''u1_u2'', i_content = Some [],
                     i_image_url = None\<rparr>,
      SetNewMessage []]"
  by (simp add: handleSendMessage_def)

end
